theory Spec2Isabelle
  imports Main
begin

section \<open>Python strings\<close>

text \<open>
  A Python \<^verbatim>\<open>str\<close> is modelled as the list of its code points, for code points below
  256: one \<^typ>\<open>char\<close> per code point. The operations below are the ones
  \<^verbatim>\<open>backend_main.py\<close> and \<^verbatim>\<open>mcp_tools_full.py\<close> use: \<^verbatim>\<open>lower\<close>, \<^verbatim>\<open>in\<close>, \<^verbatim>\<open>replace\<close>,
  \<^verbatim>\<open>strip\<close> and the decimal text of an integer inside an f-string.
\<close>

definition lower_char :: "char \<Rightarrow> char" where
  \<comment> \<open>\<^verbatim>\<open>A\<close>..\<^verbatim>\<open>Z\<close>, and the upper-case letters of Latin-1 (192..222 without the
      multiplication sign 215), move up by 32; every other code point stays.\<close>
  "lower_char c =
     (let n = (of_char c :: nat)
      in if (65 \<le> n \<and> n \<le> 90) \<or> (192 \<le> n \<and> n \<le> 222 \<and> n \<noteq> 215)
         then char_of (n + 32) else c)"

definition lower :: "string \<Rightarrow> string" where
  "lower s = map lower_char s"

fun startswith :: "string \<Rightarrow> string \<Rightarrow> bool" where
  \<comment> \<open>\<open>startswith s p\<close>: \<^verbatim>\<open>s.startswith(p)\<close>\<close>
  "startswith s [] = True"
| "startswith [] (p # ps) = False"
| "startswith (c # cs) (p # ps) = (c = p \<and> startswith cs ps)"

fun contains :: "string \<Rightarrow> string \<Rightarrow> bool" where
  \<comment> \<open>\<open>contains s sub\<close>: \<^verbatim>\<open>sub in s\<close>\<close>
  "contains [] sub = (sub = [])"
| "contains (c # cs) sub = (startswith (c # cs) sub \<or> contains cs sub)"

function replace_empty :: "string \<Rightarrow> string \<Rightarrow> string" where
  \<comment> \<open>\<open>replace_empty s old\<close>: \<^verbatim>\<open>s.replace(old, "")\<close>. Occurrences are taken from the left
      and do not overlap; with an empty \<open>old\<close> and an empty replacement the string is
      returned as it is.\<close>
  "replace_empty [] old = []"
| "replace_empty (c # cs) old =
     (if old \<noteq> [] \<and> startswith (c # cs) old
      then replace_empty (drop (length old) (c # cs)) old
      else c # replace_empty cs old)"
  by pat_completeness auto
termination
  by (relation "measure (\<lambda>(s, old). length s)") auto

definition isspace :: "char \<Rightarrow> bool" where
  \<comment> \<open>the code points below 256 for which \<^verbatim>\<open>str.isspace\<close> holds\<close>
  "isspace c =
     (let n = (of_char c :: nat)
      in (9 \<le> n \<and> n \<le> 13) \<or> (28 \<le> n \<and> n \<le> 32) \<or> n = 133 \<or> n = 160)"

definition strip :: "string \<Rightarrow> string" where
  "strip s = rev (dropWhile isspace (rev (dropWhile isspace s)))"

fun digits :: "nat \<Rightarrow> string" where
  "digits n =
     (if n < 10 then [char_of (48 + n)]
      else digits (n div 10) @ [char_of (48 + n mod 10)])"

definition str_int :: "int \<Rightarrow> string" where
  \<comment> \<open>\<^verbatim>\<open>str(i)\<close> for a Python integer\<close>
  "str_int i = (if i < 0 then CHR ''-'' # digits (nat (- i)) else digits (nat i))"

section \<open>JSON-like values\<close>

text \<open>
  The dictionaries of the source (\<^verbatim>\<open>ToolCall.arguments\<close>, the \<^verbatim>\<open>data\<close> of a response,
  the results of the placeholder tools) hold strings, integers, booleans, \<^verbatim>\<open>None\<close>, lists
  and dictionaries. A dictionary is an association list in insertion order. \<open>JTime t\<close>
  stands for the text \<^verbatim>\<open>t.isoformat()\<close> of the instant \<open>t\<close>.
\<close>

type_synonym datetime = int

datatype json =
    JNull
  | JBool bool
  | JInt int
  | JStr string
  | JTime datetime
  | JList "json list"
  | JObj "(string \<times> json) list"

definition dict_get :: "(string \<times> json) list \<Rightarrow> string \<Rightarrow> json" where
  \<comment> \<open>\<^verbatim>\<open>d.get(k)\<close>: \<^verbatim>\<open>None\<close> for a missing key\<close>
  "dict_get d k = (case map_of d k of None \<Rightarrow> JNull | Some v \<Rightarrow> v)"


section \<open>The agent of \<^verbatim>\<open>backend_main.py\<close>\<close>

record ToolCall =
  name :: string
  arguments :: "(string \<times> json) list"

definition apostrophe :: string where
  "apostrophe = [CHR 0x27]"

definition run_agent :: "string \<Rightarrow> (string \<times> string) list \<Rightarrow> string \<Rightarrow> string \<times> ToolCall list" where
  \<comment> \<open>\<^verbatim>\<open>run_agent(user_id, conversation, message)\<close>; the conversation (role and content of
      each earlier turn) is not read. The keyword tests run on the lower-cased message,
      the three \<^verbatim>\<open>replace\<close> calls on the message itself.\<close>
  "run_agent user_id conversation message =
     (let user_message = lower message
      in if contains user_message ''add'' \<or> contains user_message ''create'' then
           (let task_desc0 =
                  strip (replace_empty (replace_empty (replace_empty message ''add'') ''create'') ''task'');
                task_desc = (if task_desc0 = [] then ''a new task'' else task_desc0)
            in (''I'' @ apostrophe @ ''ve added the task '' @ apostrophe @ task_desc @ apostrophe
                  @ '' to your list.'',
                [\<lparr>name = ''add_task'',
                  arguments = [(''user_id'', JStr user_id), (''description'', JStr task_desc)]\<rparr>]))
         else if contains user_message ''list'' \<or> contains user_message ''show'' then
           (''Here are your tasks for user '' @ user_id @ ''.'',
            [\<lparr>name = ''list_tasks'', arguments = [(''user_id'', JStr user_id)]\<rparr>])
         else if contains user_message ''complete'' \<or> contains user_message ''done'' then
           (''I'' @ apostrophe @ ''ve marked the task as completed.'',
            [\<lparr>name = ''complete_task'',
              arguments = [(''user_id'', JStr user_id), (''task_id'', JInt 1)]\<rparr>])
         else if contains user_message ''update'' \<or> contains user_message ''change'' then
           (''I'' @ apostrophe @ ''ve updated the task as requested.'',
            [\<lparr>name = ''update_task'',
              arguments = [(''user_id'', JStr user_id), (''task_id'', JInt 1),
                           (''updates'', JObj [])]\<rparr>])
         else if contains user_message ''delete'' \<or> contains user_message ''remove'' then
           (''I'' @ apostrophe @ ''ve deleted the task.'',
            [\<lparr>name = ''delete_task'',
              arguments = [(''user_id'', JStr user_id), (''task_id'', JInt 1)]\<rparr>])
         else
           (''I received your message: '' @ apostrophe @ message @ apostrophe
              @ ''. How can I help you with your tasks?'',
            []))"

section \<open>The chat endpoint of \<^verbatim>\<open>backend_main.py\<close>\<close>










section \<open>The task manager of \<^verbatim>\<open>mcp_tools_full.py\<close>\<close>

record Task =
  task_id :: int
  user_id :: string
  title :: string
  description :: "string option"
  completed :: bool
  created_at :: datetime
  updated_at :: datetime

record Response =
  success :: bool
  data :: "json option"
  error :: "string option"

text \<open>
  The rows of the \<^verbatim>\<open>Task\<close> table are kept in insertion order. A task is built with
  \<^verbatim>\<open>id=None\<close> and the database engine behind \<^verbatim>\<open>self.engine\<close> gives it its primary key on
  \<^verbatim>\<open>INSERT\<close>. The two engines the constructor can end up with differ there:
  \<^item> SQLite, the default of \<^verbatim>\<open>database_url\<close> and the fallback of the constructor: the
    column is an \<^verbatim>\<open>INTEGER PRIMARY KEY\<close> declared without \<^verbatim>\<open>AUTOINCREMENT\<close>, and the new
    row gets one more than the largest key in the table, or 1 in an empty table (keys
    stay far below the 64-bit limit, where SQLite would pick an unused key at random);
  \<^item> PostgreSQL: the column is a \<^verbatim>\<open>SERIAL\<close>, the new row gets the next value of a sequence
    that only moves forward; \<open>last_serial\<close> is the value it handed out last.
\<close>

datatype engine = SQLite | PostgreSQL

record TaskManager =
  engine :: engine
  tasks :: "Task list"
  last_serial :: int

definition TaskManager_init :: "engine \<Rightarrow> TaskManager" where
  \<comment> \<open>the constructor on a fresh database\<close>
  "TaskManager_init e = \<lparr>engine = e, tasks = [], last_serial = 0\<rparr>"

definition next_id :: "TaskManager \<Rightarrow> int" where
  "next_id m =
     (case engine m of
        SQLite \<Rightarrow> (if tasks m = [] then 1 else Max (set (map task_id (tasks m))) + 1)
      | PostgreSQL \<Rightarrow> last_serial m + 1)"

text \<open>
  Every method runs inside \<^verbatim>\<open>try\<close> ... \<^verbatim>\<open>except Exception\<close>: an exception raised while the
  session works is turned into a failed response that carries \<^verbatim>\<open>str(e)\<close>, and nothing of
  the transaction is kept. The exceptions modelled are the two a caller can provoke
  through the arguments, each raised by the driver when it binds a value, before the
  statement reaches the database:
  \<^item> SQLite refuses an integer outside the signed 64-bit range;
  \<^item> PostgreSQL refuses a string that holds the character NUL.
  \<open>int_error\<close> and \<open>str_error\<close> give the text of the exception, or \<open>None\<close> when the
  engine takes the value. Failures that do not come from the arguments (a lost
  connection, a full disk) are outside the model.
\<close>

definition int_error :: "engine \<Rightarrow> int \<Rightarrow> string option" where
  "int_error e i =
     (case e of
        SQLite \<Rightarrow>
          (if i < - (2 ^ 63) \<or> 2 ^ 63 \<le> i
           then Some ''Python int too large to convert to SQLite INTEGER'' else None)
      | PostgreSQL \<Rightarrow> None)"

definition str_error :: "engine \<Rightarrow> string \<Rightarrow> string option" where
  "str_error e s =
     (case e of
        SQLite \<Rightarrow> None
      | PostgreSQL \<Rightarrow>
          (if CHR 0x00 \<in> set s
           then Some ''A string literal cannot contain NUL (0x00) characters.'' else None))"

definition insert_error :: "engine \<Rightarrow> string \<Rightarrow> string \<Rightarrow> string option \<Rightarrow> string option" where
  \<comment> \<open>the strings the \<^verbatim>\<open>INSERT\<close> of a task binds: owner, title and, when there is one,
      description\<close>
  "insert_error e uid ttl desc =
     (case str_error e uid of
        Some x \<Rightarrow> Some x
      | None \<Rightarrow>
          (case str_error e ttl of
             Some x \<Rightarrow> Some x
           | None \<Rightarrow> (case desc of None \<Rightarrow> None | Some d \<Rightarrow> str_error e d)))"

definition json_opt_str :: "string option \<Rightarrow> json" where
  "json_opt_str x = (case x of None \<Rightarrow> JNull | Some s \<Rightarrow> JStr s)"

definition failure :: "string \<Rightarrow> Response" where
  \<comment> \<open>\<^verbatim>\<open>success=False, error=...\<close>\<close>
  "failure e = \<lparr>success = False, data = None, error = Some e\<rparr>"

definition session_get :: "TaskManager \<Rightarrow> int \<Rightarrow> string + Task option" where
  \<comment> \<open>\<^verbatim>\<open>session.get(Task, task_id)\<close>: \<open>Inl\<close> of the text of the exception when the engine
      refuses the key, else \<open>Inr\<close> of the task with that key, if any\<close>
  "session_get m i =
     (case int_error (engine m) i of
        Some e \<Rightarrow> Inl e
      | None \<Rightarrow> Inr (find (\<lambda>t. task_id t = i) (tasks m)))"

definition add_task ::
  "TaskManager \<Rightarrow> datetime \<Rightarrow> datetime \<Rightarrow> string \<Rightarrow> string \<Rightarrow> string option
     \<Rightarrow> TaskManager \<times> Response" where
  \<comment> \<open>\<open>t1\<close> and \<open>t2\<close> are the two readings of the clock that fill \<^verbatim>\<open>created_at\<close> and
      \<^verbatim>\<open>updated_at\<close> when the task is built. The title is stored as given: the function
      has no check on it.\<close>
  "add_task m t1 t2 uid ttl desc =
     (case insert_error (engine m) uid ttl desc of
        Some e \<Rightarrow> (m, failure e)
      | None \<Rightarrow>
          (let i = next_id m;
               task = \<lparr>task_id = i, user_id = uid, title = ttl, description = desc,
                       completed = False, created_at = t1, updated_at = t2\<rparr>
           in (m\<lparr>tasks := tasks m @ [task],
                 last_serial := (case engine m of SQLite \<Rightarrow> last_serial m | PostgreSQL \<Rightarrow> i)\<rparr>,
               \<lparr>success = True,
                data = Some (JObj [(''task_id'', JInt i), (''user_id'', JStr uid),
                                   (''title'', JStr ttl), (''description'', json_opt_str desc),
                                   (''completed'', JBool False), (''created_at'', JTime t1)]),
                error = None\<rparr>)))"

definition task_dict :: "Task \<Rightarrow> json" where
  "task_dict t =
     JObj [(''task_id'', JInt (task_id t)), (''user_id'', JStr (user_id t)),
           (''title'', JStr (title t)), (''description'', json_opt_str (description t)),
           (''completed'', JBool (completed t)), (''created_at'', JTime (created_at t)),
           (''updated_at'', JTime (updated_at t))]"

definition list_tasks :: "TaskManager \<Rightarrow> string \<Rightarrow> string \<Rightarrow> TaskManager \<times> Response" where
  \<comment> \<open>The query binds the owner. It has no \<^verbatim>\<open>ORDER BY\<close>, so the order of the rows is the
      engine's choice; the model gives them in insertion order, and nothing proved below
      reads the order. Any status other than \<^verbatim>\<open>pending\<close> and \<^verbatim>\<open>completed\<close> filters
      nothing.\<close>
  "list_tasks m uid status =
     (case str_error (engine m) uid of
        Some e \<Rightarrow> (m, failure e)
      | None \<Rightarrow>
          (let selected = filter (\<lambda>t. user_id t = uid \<and>
                                       (if status = ''pending'' then \<not> completed t
                                        else if status = ''completed'' then completed t
                                        else True)) (tasks m);
               task_list = map task_dict selected
           in (m,
               \<lparr>success = True,
                data = Some (JObj [(''tasks'', JList task_list),
                                   (''total_count'', JInt (int (length task_list))),
                                   (''user_id'', JStr uid), (''status_filter'', JStr status)]),
                error = None\<rparr>)))"

text \<open>
  \<^verbatim>\<open>complete_task\<close>, \<^verbatim>\<open>update_task\<close> and \<^verbatim>\<open>delete_task\<close> load the task by its primary
  key, return early when there is none or when it belongs to another user, and otherwise
  change the loaded object; the commit writes the changed columns to the row with that
  key (or removes the row), and the response is built from the object read back. The
  commit of \<^verbatim>\<open>update_task\<close> binds the title and the description it was given.
\<close>

definition complete_task :: "TaskManager \<Rightarrow> datetime \<Rightarrow> string \<Rightarrow> int \<Rightarrow> TaskManager \<times> Response" where
  "complete_task m now uid tid =
     (case session_get m tid of
        Inl e \<Rightarrow> (m, failure e)
      | Inr None \<Rightarrow> (m, failure (''Task with ID '' @ str_int tid @ '' not found''))
      | Inr (Some task) \<Rightarrow>
          if user_id task \<noteq> uid then
            (m, failure ''Unauthorized: Task does not belong to user'')
          else
            (let set_fields = (\<lambda>t. t\<lparr>completed := True, updated_at := now\<rparr>);
                 task' = set_fields task
             in (m\<lparr>tasks := map (\<lambda>t. if task_id t = tid then set_fields t else t) (tasks m)\<rparr>,
                 \<lparr>success = True,
                  data = Some (JObj [(''task_id'', JInt (task_id task')), (''user_id'', JStr uid),
                                     (''title'', JStr (title task')),
                                     (''completed'', JBool (completed task')),
                                     (''updated_at'', JTime (updated_at task'))]),
                  error = None\<rparr>)))"

definition delete_task :: "TaskManager \<Rightarrow> string \<Rightarrow> int \<Rightarrow> TaskManager \<times> Response" where
  "delete_task m uid tid =
     (case session_get m tid of
        Inl e \<Rightarrow> (m, failure e)
      | Inr None \<Rightarrow> (m, failure (''Task with ID '' @ str_int tid @ '' not found''))
      | Inr (Some task) \<Rightarrow>
          if user_id task \<noteq> uid then
            (m, failure ''Unauthorized: Task does not belong to user'')
          else
            (m\<lparr>tasks := filter (\<lambda>t. task_id t \<noteq> tid) (tasks m)\<rparr>,
             \<lparr>success = True,
              data = Some (JObj [(''task_id'', JInt tid), (''user_id'', JStr uid),
                                 (''deleted'', JBool True)]),
              error = None\<rparr>))"

definition update_error :: "engine \<Rightarrow> string option \<Rightarrow> string option \<Rightarrow> string option" where
  \<comment> \<open>the strings the \<^verbatim>\<open>UPDATE\<close> of \<^verbatim>\<open>update_task\<close> binds: the title and the description
      that were supplied\<close>
  "update_error e ttl desc =
     (case (case ttl of None \<Rightarrow> None | Some x \<Rightarrow> str_error e x) of
        Some x \<Rightarrow> Some x
      | None \<Rightarrow> (case desc of None \<Rightarrow> None | Some d \<Rightarrow> str_error e d))"

definition update_task ::
  "TaskManager \<Rightarrow> datetime \<Rightarrow> string \<Rightarrow> int \<Rightarrow> string option \<Rightarrow> string option
     \<Rightarrow> TaskManager \<times> Response" where
  "update_task m now uid tid ttl desc =
     (case session_get m tid of
        Inl e \<Rightarrow> (m, failure e)
      | Inr None \<Rightarrow> (m, failure (''Task with ID '' @ str_int tid @ '' not found''))
      | Inr (Some task) \<Rightarrow>
          if user_id task \<noteq> uid then
            (m, failure ''Unauthorized: Task does not belong to user'')
          else
            (case update_error (engine m) ttl desc of
               Some e \<Rightarrow> (m, failure e)
             | None \<Rightarrow>
                 (let set_title = (\<lambda>t. case ttl of None \<Rightarrow> t | Some x \<Rightarrow> t\<lparr>title := x\<rparr>);
                      set_description =
                        (\<lambda>t. case desc of None \<Rightarrow> t | Some d \<Rightarrow> t\<lparr>description := Some d\<rparr>);
                      set_fields = (\<lambda>t. (set_description (set_title t))\<lparr>updated_at := now\<rparr>);
                      task' = set_fields task
                  in (m\<lparr>tasks := map (\<lambda>t. if task_id t = tid then set_fields t else t) (tasks m)\<rparr>,
                      \<lparr>success = True,
                       data = Some (JObj [(''task_id'', JInt (task_id task')),
                                          (''user_id'', JStr uid),
                                          (''title'', JStr (title task')),
                                          (''description'', json_opt_str (description task')),
                                          (''completed'', JBool (completed task')),
                                          (''updated_at'', JTime (updated_at task'))]),
                       error = None\<rparr>))))"

section \<open>Sequences of calls\<close>

text \<open>
  What a caller can do with a task manager: a call of one of its five methods, with its
  arguments and the readings of the clock the method takes. \<open>perform_all\<close> is the manager
  after a sequence of calls, \<open>assigned_ids\<close> the ids \<^verbatim>\<open>add_task\<close> handed out along the way,
  in order, \<open>task_ids\<close> the primary keys in the table, and \<open>listed_ids\<close> the \<^verbatim>\<open>task_id\<close>
  entries of the \<^verbatim>\<open>tasks\<close> a response lists.
\<close>

datatype call =
    Add datetime datetime string string "string option"
  | ListTasks string string
  | Complete datetime string int
  | Update datetime string int "string option" "string option"
  | Delete string int

fun perform :: "TaskManager \<Rightarrow> call \<Rightarrow> TaskManager \<times> Response" where
  "perform m (Add t1 t2 uid ttl desc) = add_task m t1 t2 uid ttl desc"
| "perform m (ListTasks uid status) = list_tasks m uid status"
| "perform m (Complete now uid tid) = complete_task m now uid tid"
| "perform m (Update now uid tid ttl desc) = update_task m now uid tid ttl desc"
| "perform m (Delete uid tid) = delete_task m uid tid"

fun perform_all :: "TaskManager \<Rightarrow> call list \<Rightarrow> TaskManager" where
  "perform_all m [] = m"
| "perform_all m (c # cs) = perform_all (fst (perform m c)) cs"

fun assigned_ids :: "TaskManager \<Rightarrow> call list \<Rightarrow> int list" where
  "assigned_ids m [] = []"
| "assigned_ids m (Add t1 t2 uid ttl desc # cs) =
     (if success (snd (add_task m t1 t2 uid ttl desc)) then [next_id m] else [])
       @ assigned_ids (fst (add_task m t1 t2 uid ttl desc)) cs"
| "assigned_ids m (c # cs) = assigned_ids (fst (perform m c)) cs"

definition task_ids :: "TaskManager \<Rightarrow> int list" where
  "task_ids m = map task_id (tasks m)"

definition not_found :: "int \<Rightarrow> Response" where
  \<comment> \<open>the result the three methods give when \<^verbatim>\<open>session.get\<close> finds no task\<close>
  "not_found tid = failure (''Task with ID '' @ str_int tid @ '' not found'')"

definition unauthorized :: Response where
  \<comment> \<open>the result they give when the task found belongs to another user\<close>
  "unauthorized = failure ''Unauthorized: Task does not belong to user''"

definition listed_ids :: "Response \<Rightarrow> json list" where
  "listed_ids r =
     (case data r of
        Some (JObj d) \<Rightarrow>
          (case dict_get d ''tasks'' of
             JList l \<Rightarrow> map (\<lambda>j. case j of JObj t \<Rightarrow> dict_get t ''task_id'' | _ \<Rightarrow> JNull) l
           | _ \<Rightarrow> [])
      | _ \<Rightarrow> [])"

text \<open>
  The invariant of the table: the primary keys are pairwise distinct, and on PostgreSQL
  none is beyond the last value of the sequence.
\<close>

definition ids_ok :: "TaskManager \<Rightarrow> bool" where
  "ids_ok m \<longleftrightarrow> distinct (task_ids m)
     \<and> (engine m = PostgreSQL \<longrightarrow> (\<forall>i \<in> set (task_ids m). i \<le> last_serial m))"

section \<open>Properties\<close>

subsection \<open>The agent\<close>

lemma last_dropWhile_keep: "dropWhile P xs \<noteq> [] \<Longrightarrow> last (dropWhile P xs) = last xs"
  by (induction xs) (auto split: if_splits)

lemma strip_no_outer_space:
  assumes "strip s \<noteq> []"
  shows "\<not> isspace (hd (strip s))" and "\<not> isspace (last (strip s))"
proof -
  let ?a = "dropWhile isspace s"
  let ?b = "dropWhile isspace (rev ?a)"
  have b: "?b \<noteq> []" using assms by (simp add: strip_def)
  have a: "?a \<noteq> []"
  proof
    assume e: "?a = []"
    have "?b = dropWhile isspace (rev [])" by (simp only: e)
    then show False using b by simp
  qed
  have "\<not> isspace (hd ?b)" using b by (rule hd_dropWhile)
  moreover have "last (strip s) = hd ?b" using b by (simp add: strip_def last_rev)
  ultimately show "\<not> isspace (last (strip s))" by simp
  have "\<not> isspace (hd ?a)" using a by (rule hd_dropWhile)
  moreover have "hd (strip s) = last ?b" using b by (simp add: strip_def hd_rev)
  moreover have "last ?b = last (rev ?a)" using b by (rule last_dropWhile_keep)
  moreover have "last (rev ?a) = hd ?a" using a by (simp add: last_rev)
  ultimately show "\<not> isspace (hd (strip s))" by simp
qed

lemma placeholder_no_outer_space:
  "\<not> isspace (hd ''a new task'')" "\<not> isspace (last ''a new task'')"
  by (simp_all add: isspace_def)

lemma run_agent_add:
  assumes "contains (lower message) ''add'' \<or> contains (lower message) ''create''"
  shows "snd (run_agent u conv message) =
           [\<lparr>name = ''add_task'',
             arguments = [(''user_id'', JStr u),
                          (''description'',
                           JStr (let s = strip (replace_empty (replace_empty (replace_empty message ''add'') ''create'') ''task'')
                                 in if s = [] then ''a new task'' else s))]\<rparr>]"
  using assms by (simp add: run_agent_def Let_def)

text \<open>
  Claim C1, as amended. For the message \<^verbatim>\<open>Add a task to buy groceries\<close> the agent issues
  one \<^verbatim>\<open>add_task\<close> call whose description ends with \<^verbatim>\<open>a  to buy groceries\<close>: no rule
  removes the article, and the removed \<^verbatim>\<open>task\<close> leaves the two spaces around it. For a
  message written without capitals that contains \<^verbatim>\<open>add\<close> or \<^verbatim>\<open>create\<close>, the description
  is the message with the occurrences of \<^verbatim>\<open>add\<close>, then \<^verbatim>\<open>create\<close>, then \<^verbatim>\<open>task\<close> removed
  and the surrounding whitespace trimmed, or \<^verbatim>\<open>a new task\<close> when nothing is left; it is
  never empty and neither starts nor ends with whitespace; for
  \<^verbatim>\<open>add a task to buy groceries\<close> it is \<^verbatim>\<open>a  to buy groceries\<close>. What becomes of a keyword
  written with capitals is not part of the statement.
\<close>

theorem run_agent_add_description:
  "(\<exists>pre. snd (run_agent u conv ''Add a task to buy groceries'') =
            [\<lparr>name = ''add_task'',
              arguments = [(''user_id'', JStr u),
                           (''description'', JStr (pre @ ''a  to buy groceries''))]\<rparr>])
   \<and> snd (run_agent u conv ''add a task to buy groceries'') =
        [\<lparr>name = ''add_task'',
          arguments = [(''user_id'', JStr u), (''description'', JStr ''a  to buy groceries'')]\<rparr>]
   \<and> (lower message = message \<and> (contains message ''add'' \<or> contains message ''create'') \<longrightarrow>
        (\<exists>d. snd (run_agent u conv message) =
               [\<lparr>name = ''add_task'',
                 arguments = [(''user_id'', JStr u), (''description'', JStr d)]\<rparr>]
           \<and> d = (let s = strip (replace_empty (replace_empty (replace_empty message ''add'')
                                                   ''create'') ''task'')
                  in if s = [] then ''a new task'' else s)
           \<and> d \<noteq> [] \<and> \<not> isspace (hd d) \<and> \<not> isspace (last d)))"
proof (intro conjI impI)
  have "snd (run_agent u conv ''Add a task to buy groceries'') =
            [\<lparr>name = ''add_task'',
              arguments = [(''user_id'', JStr u),
                           (''description'', JStr (''Add '' @ ''a  to buy groceries''))]\<rparr>]"
    by code_simp
  then show "\<exists>pre. snd (run_agent u conv ''Add a task to buy groceries'') =
            [\<lparr>name = ''add_task'',
              arguments = [(''user_id'', JStr u),
                           (''description'', JStr (pre @ ''a  to buy groceries''))]\<rparr>]"
    by (rule exI [where x = "''Add ''"])
next
  show "snd (run_agent u conv ''add a task to buy groceries'') =
        [\<lparr>name = ''add_task'',
          arguments = [(''user_id'', JStr u), (''description'', JStr ''a  to buy groceries'')]\<rparr>]"
    by code_simp
next
  assume h: "lower message = message \<and> (contains message ''add'' \<or> contains message ''create'')"
  then have kw: "contains (lower message) ''add'' \<or> contains (lower message) ''create''"
    by simp
  define s where "s = strip (replace_empty (replace_empty (replace_empty message ''add'') ''create'') ''task'')"
  define d where "d = (if s = [] then ''a new task'' else s)"
  have 1: "snd (run_agent u conv message) =
               [\<lparr>name = ''add_task'',
                 arguments = [(''user_id'', JStr u), (''description'', JStr d)]\<rparr>]"
    using run_agent_add [OF kw, of u conv] by (simp add: d_def s_def Let_def)
  have 2: "d \<noteq> []" by (simp add: d_def)
  have 3: "\<not> isspace (hd d) \<and> \<not> isspace (last d)"
  proof (cases "s = []")
    case True
    then show ?thesis using placeholder_no_outer_space by (simp add: d_def)
  next
    case False
    then show ?thesis using strip_no_outer_space [of "replace_empty (replace_empty (replace_empty message ''add'') ''create'') ''task''"]
      by (simp add: d_def s_def)
  qed
  show "\<exists>d. snd (run_agent u conv message) =
               [\<lparr>name = ''add_task'',
                 arguments = [(''user_id'', JStr u), (''description'', JStr d)]\<rparr>]
           \<and> d = (let s = strip (replace_empty (replace_empty (replace_empty message ''add'')
                                                   ''create'') ''task'')
                  in if s = [] then ''a new task'' else s)
           \<and> d \<noteq> [] \<and> \<not> isspace (hd d) \<and> \<not> isspace (last d)"
    using 1 2 3 by (intro exI [of _ d]) (simp add: d_def s_def Let_def)
qed

theorem run_agent_add_description_witness:
  "lower ''add task'' = ''add task''
   \<and> contains ''add task'' ''add''
   \<and> snd (run_agent ''u1'' [] ''add task'') =
       [\<lparr>name = ''add_task'',
         arguments = [(''user_id'', JStr ''u1''), (''description'', JStr ''a new task'')]\<rparr>]"
proof -
  have l: "lower ''add task'' = ''add task''" by code_simp
  have h: "contains ''add task'' ''add''" by code_simp
  have s: "strip (replace_empty (replace_empty (replace_empty ''add task'' ''add'') ''create'') ''task'') = []"
    by code_simp
  from h have kw: "lower ''add task'' = ''add task''
                     \<and> (contains ''add task'' ''add'' \<or> contains ''add task'' ''create'')"
    using l by (intro conjI disjI1)
  note general = run_agent_add_description [of "''u1''" "[]" "''add task''", THEN conjunct2,
      THEN conjunct2, THEN mp, OF kw]
  then obtain d where 1: "snd (run_agent ''u1'' [] ''add task'') =
               [\<lparr>name = ''add_task'',
                 arguments = [(''user_id'', JStr ''u1''), (''description'', JStr d)]\<rparr>]"
     and 2: "d = (let s = strip (replace_empty (replace_empty (replace_empty ''add task'' ''add'')
                                                   ''create'') ''task'')
                  in if s = [] then ''a new task'' else s)"
    by (elim exE conjE)
  from 2 have "d = ''a new task''" by (simp only: s Let_def, simp)
  with 1 l h show ?thesis by (intro conjI) (simp_all only:)
qed

text \<open>
  The description the claim C1 expects, \<^verbatim>\<open>to buy groceries\<close>, is not the one the agent
  extracts: the article stays, and so do the two spaces the removed word leaves.
\<close>

theorem run_agent_add_description_counterexample:
  "map (\<lambda>tc. dict_get (arguments tc) ''description'')
       (snd (run_agent ''u1'' [] ''Add a task to buy groceries'')) \<noteq> [JStr ''to buy groceries'']"
  by code_simp

text \<open>
  Claim C2, as amended. For every message that reaches the third rule (its lower-cased
  text contains none of \<^verbatim>\<open>add\<close>, \<^verbatim>\<open>create\<close>, \<^verbatim>\<open>list\<close>, \<^verbatim>\<open>show\<close>, and contains
  \<^verbatim>\<open>complete\<close> or \<^verbatim>\<open>done\<close>) the agent issues one \<^verbatim>\<open>complete_task\<close> call whose task id
  is the constant 1, whatever numbers the message holds.
\<close>

theorem run_agent_complete_task_id:
  assumes "\<not> contains (lower m) ''add''" and "\<not> contains (lower m) ''create''"
    and "\<not> contains (lower m) ''list''" and "\<not> contains (lower m) ''show''"
    and "contains (lower m) ''complete'' \<or> contains (lower m) ''done''"
  shows "snd (run_agent u conv m) =
           [\<lparr>name = ''complete_task'',
             arguments = [(''user_id'', JStr u), (''task_id'', JInt 1)]\<rparr>]"
  using assms by (simp add: run_agent_def Let_def)

theorem run_agent_complete_task_id_witness:
  "\<not> contains (lower ''complete task 5'') ''add''
   \<and> \<not> contains (lower ''complete task 5'') ''create''
   \<and> \<not> contains (lower ''complete task 5'') ''list''
   \<and> \<not> contains (lower ''complete task 5'') ''show''
   \<and> contains (lower ''complete task 5'') ''complete''
   \<and> snd (run_agent ''u1'' [] ''complete task 5'') =
        [\<lparr>name = ''complete_task'',
          arguments = [(''user_id'', JStr ''u1''), (''task_id'', JInt 1)]\<rparr>]"
proof -
  have 1: "\<not> contains (lower ''complete task 5'') ''add''" by code_simp
  have 2: "\<not> contains (lower ''complete task 5'') ''create''" by code_simp
  have 3: "\<not> contains (lower ''complete task 5'') ''list''" by code_simp
  have 4: "\<not> contains (lower ''complete task 5'') ''show''" by code_simp
  have 5: "contains (lower ''complete task 5'') ''complete''" by code_simp
  from 5 have 6: "contains (lower ''complete task 5'') ''complete'' \<or> contains (lower ''complete task 5'') ''done''" ..
  note run_agent_complete_task_id [OF 1 2 3 4 6, of "''u1''" "[]"]
  with 1 2 3 4 5 show ?thesis by blast
qed

text \<open>
  The task id the claim C2 expects for \<^verbatim>\<open>complete task 5\<close> is 5; the agent gives 1.
\<close>

theorem run_agent_complete_task_id_counterexample:
  "map (\<lambda>tc. dict_get (arguments tc) ''task_id'') (snd (run_agent ''u1'' [] ''complete task 5''))
     \<noteq> [JInt 5]"
  by code_simp

subsection \<open>The chat endpoint\<close>












subsection \<open>The task manager\<close>

lemma session_get_None:
  "session_get m tid = Inr None \<longleftrightarrow> int_error (engine m) tid = None \<and> tid \<notin> set (task_ids m)"
  by (auto simp: session_get_def task_ids_def find_None_iff split: option.splits)

lemma session_get_Some:
  "session_get m tid = Inr (Some task) \<Longrightarrow>
     task \<in> set (tasks m) \<and> task_id task = tid \<and> int_error (engine m) tid = None"
  by (auto simp: session_get_def find_Some_iff split: option.splits)



lemma failed_results:
  "\<not> success (not_found tid)" "\<not> success unauthorized" "\<not> success (failure e)"
  "error (not_found tid) = Some (''Task with ID '' @ str_int tid @ '' not found'')"
  "error unauthorized = Some ''Unauthorized: Task does not belong to user''"
  "error (failure e) = Some e"
  by (simp_all add: not_found_def unauthorized_def failure_def)





lemma complete_task_cases:
  "complete_task m now uid tid =
     (case session_get m tid of
        Inl e \<Rightarrow> (m, failure e)
      | Inr None \<Rightarrow> (m, not_found tid)
      | Inr (Some task) \<Rightarrow>
          if user_id task \<noteq> uid then (m, unauthorized)
          else (m\<lparr>tasks := map (\<lambda>t. if task_id t = tid then t\<lparr>completed := True, updated_at := now\<rparr> else t) (tasks m)\<rparr>,
                \<lparr>success = True,
                 data = Some (JObj [(''task_id'', JInt tid), (''user_id'', JStr uid),
                                    (''title'', JStr (title task)), (''completed'', JBool True),
                                    (''updated_at'', JTime now)]),
                 error = None\<rparr>))"
  by (auto simp: complete_task_def not_found_def unauthorized_def Let_def
      dest: session_get_Some split: option.splits sum.splits)

lemma update_task_cases:
  "update_task m now uid tid ttl desc =
     (case session_get m tid of
        Inl e \<Rightarrow> (m, failure e)
      | Inr None \<Rightarrow> (m, not_found tid)
      | Inr (Some task) \<Rightarrow>
          if user_id task \<noteq> uid then (m, unauthorized)
          else (case update_error (engine m) ttl desc of
                  Some e \<Rightarrow> (m, failure e)
                | None \<Rightarrow>
                   (m\<lparr>tasks := map (\<lambda>t. if task_id t = tid
                                    then t\<lparr>title := (case ttl of None \<Rightarrow> title t | Some x \<Rightarrow> x),
                                          description := (case desc of None \<Rightarrow> description t | Some d \<Rightarrow> Some d),
                                          updated_at := now\<rparr>
                                    else t) (tasks m)\<rparr>,
                    \<lparr>success = True,
                     data = Some (JObj [(''task_id'', JInt tid), (''user_id'', JStr uid),
                                    (''title'', JStr (case ttl of None \<Rightarrow> title task | Some x \<Rightarrow> x)),
                                    (''description'', json_opt_str (case desc of None \<Rightarrow> description task | Some d \<Rightarrow> Some d)),
                                    (''completed'', JBool (completed task)),
                                    (''updated_at'', JTime now)]),
                     error = None\<rparr>)))"
  by (auto simp: update_task_def not_found_def unauthorized_def Let_def
      dest: session_get_Some split: option.splits sum.splits intro!: map_cong)

lemma delete_task_cases:
  "delete_task m uid tid =
     (case session_get m tid of
        Inl e \<Rightarrow> (m, failure e)
      | Inr None \<Rightarrow> (m, not_found tid)
      | Inr (Some task) \<Rightarrow>
          if user_id task \<noteq> uid then (m, unauthorized)
          else (m\<lparr>tasks := filter (\<lambda>t. task_id t \<noteq> tid) (tasks m)\<rparr>,
                \<lparr>success = True,
                 data = Some (JObj [(''task_id'', JInt tid), (''user_id'', JStr uid),
                                    (''deleted'', JBool True)]),
                 error = None\<rparr>))"
  by (auto simp: delete_task_def not_found_def unauthorized_def split: option.splits sum.splits)














lemma find_map_by_id:
  assumes "\<And>t. task_id (f t) = task_id t"
  shows "find (\<lambda>t. task_id t = tid) (map (\<lambda>t. if task_id t = tid then f t else t) ts)
           = map_option f (find (\<lambda>t. task_id t = tid) ts)"
  by (induction ts) (simp_all add: assms)

text \<open>
  Claim C8. On a task of the caller, \<^verbatim>\<open>complete_task\<close> succeeds with no error the first
  time and the second time, the task is completed after each call, and the manager after
  the two calls is the one a single call at the second instant gives.
\<close>

theorem complete_task_idempotent:
  assumes "session_get m tid = Inr (Some task)" and "user_id task = uid"
  shows "success (snd (complete_task m now1 uid tid))
     \<and> error (snd (complete_task m now1 uid tid)) = None
     \<and> success (snd (complete_task (fst (complete_task m now1 uid tid)) now2 uid tid))
     \<and> error (snd (complete_task (fst (complete_task m now1 uid tid)) now2 uid tid)) = None
     \<and> (\<exists>t. session_get (fst (complete_task m now1 uid tid)) tid = Inr (Some t) \<and> completed t)
     \<and> (\<exists>t. session_get (fst (complete_task (fst (complete_task m now1 uid tid)) now2 uid tid)) tid
               = Inr (Some t) \<and> completed t)
     \<and> fst (complete_task (fst (complete_task m now1 uid tid)) now2 uid tid)
         = fst (complete_task m now2 uid tid)"
proof -
  let ?m1 = "fst (complete_task m now1 uid tid)"
  let ?m2 = "fst (complete_task ?m1 now2 uid tid)"
  have get_after: "session_get (fst (complete_task m' now uid tid)) tid
                     = Inr (Some (t\<lparr>completed := True, updated_at := now\<rparr>))"
    if a: "session_get m' tid = Inr (Some t)" and b: "user_id t = uid" for m' t now
  proof -
    from a have ie: "int_error (engine m') tid = None"
      and f: "find (\<lambda>t. task_id t = tid) (tasks m') = Some t"
      by (auto simp: session_get_def split: option.splits)
    have "fst (complete_task m' now uid tid) =
            m'\<lparr>tasks := map (\<lambda>t. if task_id t = tid
                                  then t\<lparr>completed := True, updated_at := now\<rparr> else t) (tasks m')\<rparr>"
      using a b by (simp add: complete_task_cases)
    then show ?thesis
      using ie f find_map_by_id [of "\<lambda>t. t\<lparr>completed := True, updated_at := now\<rparr>" tid "tasks m'"]
      by (simp add: session_get_def)
  qed
  have g1: "session_get ?m1 tid = Inr (Some (task\<lparr>completed := True, updated_at := now1\<rparr>))"
    using assms by (rule get_after)
  have g2: "session_get ?m2 tid
              = Inr (Some (task\<lparr>completed := True, updated_at := now1\<rparr>\<lparr>completed := True, updated_at := now2\<rparr>))"
    using get_after [of ?m1 "task\<lparr>completed := True, updated_at := now1\<rparr>" now2] g1 assms(2)
    by simp
  have s1: "success (snd (complete_task m now1 uid tid)) \<and> error (snd (complete_task m now1 uid tid)) = None"
    using assms by (simp add: complete_task_cases)
  have s2: "success (snd (complete_task ?m1 now2 uid tid)) \<and> error (snd (complete_task ?m1 now2 uid tid)) = None"
    using g1 assms(2) by (simp add: complete_task_cases)
  have same: "?m2 = fst (complete_task m now2 uid tid)"
    using assms g1 by (simp add: complete_task_cases comp_def)
  from g1 g2 s1 s2 same show ?thesis by simp
qed

theorem complete_task_idempotent_witness:
  "session_get (fst (add_task (TaskManager_init SQLite) 1 2 ''u1'' ''milk'' None)) 1
     = Inr (Some \<lparr>task_id = 1, user_id = ''u1'', title = ''milk'', description = None,
                  completed = False, created_at = 1, updated_at = 2\<rparr>)
   \<and> success (snd (complete_task (fst (add_task (TaskManager_init SQLite) 1 2 ''u1'' ''milk'' None))
                     5 ''u1'' 1))
   \<and> success (snd (complete_task
                     (fst (complete_task (fst (add_task (TaskManager_init SQLite) 1 2 ''u1'' ''milk'' None))
                             5 ''u1'' 1))
                     6 ''u1'' 1))
   \<and> map completed (tasks (fst (complete_task
                     (fst (complete_task (fst (add_task (TaskManager_init SQLite) 1 2 ''u1'' ''milk'' None))
                             5 ''u1'' 1))
                     6 ''u1'' 1))) = [True]"
proof -
  let ?m = "fst (add_task (TaskManager_init SQLite) 1 2 ''u1'' ''milk'' None)"
  let ?t = "\<lparr>task_id = 1, user_id = ''u1'', title = ''milk'', description = None,
             completed = False, created_at = 1, updated_at = 2\<rparr>"
  have h1: "session_get ?m 1 = Inr (Some ?t)" by code_simp
  have h2: "user_id ?t = ''u1''" by simp
  have v: "map completed (tasks (fst (complete_task (fst (complete_task ?m 5 ''u1'' 1)) 6 ''u1'' 1))) = [True]"
    by code_simp
  from complete_task_idempotent [OF h1 h2, of 5 6] h1 v show ?thesis by blast
qed

text \<open>
  Claim C9. A successful \<^verbatim>\<open>update_task\<close> keeps the rows of the table in place; every row
  keeps its id, owner, completed flag and creation time; a title that is not supplied
  leaves every title as it was and a description that is not supplied leaves every
  description as it was; rows with another id do not change at all; the row with the id
  takes the supplied fields and the new update time.
\<close>

theorem update_task_frame:
  assumes "success (snd (update_task m now uid tid ttl desc))"
  shows "list_all2
           (\<lambda>old new.
              task_id new = task_id old \<and> user_id new = user_id old
              \<and> completed new = completed old \<and> created_at new = created_at old
              \<and> (ttl = None \<longrightarrow> title new = title old)
              \<and> (desc = None \<longrightarrow> description new = description old)
              \<and> (task_id old \<noteq> tid \<longrightarrow> new = old)
              \<and> (task_id old = tid \<longrightarrow>
                    updated_at new = now
                    \<and> (\<forall>x. ttl = Some x \<longrightarrow> title new = x)
                    \<and> (\<forall>d. desc = Some d \<longrightarrow> description new = Some d)))
           (tasks m) (tasks (fst (update_task m now uid tid ttl desc)))
     \<and> engine (fst (update_task m now uid tid ttl desc)) = engine m
     \<and> last_serial (fst (update_task m now uid tid ttl desc)) = last_serial m"
proof -
  from assms obtain task where "session_get m tid = Inr (Some task)" and "user_id task = uid"
    and "update_error (engine m) ttl desc = None"
    by (auto simp: update_task_cases failed_results split: sum.splits option.splits if_splits)
  then have "fst (update_task m now uid tid ttl desc) =
      m\<lparr>tasks := map (\<lambda>t. if task_id t = tid
                                    then t\<lparr>title := (case ttl of None \<Rightarrow> title t | Some x \<Rightarrow> x),
                                          description := (case desc of None \<Rightarrow> description t | Some d \<Rightarrow> Some d),
                                          updated_at := now\<rparr>
                                    else t) (tasks m)\<rparr>"
    by (simp add: update_task_cases)
  then show ?thesis
    by (simp add: list_all2_map2 list_all2_same)
qed

theorem update_task_frame_witness:
  "success (snd (update_task (fst (add_task (TaskManager_init SQLite) 1 2 ''u1'' ''milk'' None))
                   9 ''u1'' 1 None (Some ''two litres'')))
   \<and> tasks (fst (update_task (fst (add_task (TaskManager_init SQLite) 1 2 ''u1'' ''milk'' None))
                   9 ''u1'' 1 None (Some ''two litres'')))
       = [\<lparr>task_id = 1, user_id = ''u1'', title = ''milk'', description = Some ''two litres'',
           completed = False, created_at = 1, updated_at = 9\<rparr>]
   \<and> list_all2 (\<lambda>old new. user_id new = user_id old \<and> title new = title old
                   \<and> completed new = completed old \<and> created_at new = created_at old)
        (tasks (fst (add_task (TaskManager_init SQLite) 1 2 ''u1'' ''milk'' None)))
        (tasks (fst (update_task (fst (add_task (TaskManager_init SQLite) 1 2 ''u1'' ''milk'' None))
                   9 ''u1'' 1 None (Some ''two litres''))))"
proof -
  let ?m = "fst (add_task (TaskManager_init SQLite) 1 2 ''u1'' ''milk'' None)"
  have h: "success (snd (update_task ?m 9 ''u1'' 1 None (Some ''two litres'')))"
    by code_simp
  have v: "tasks (fst (update_task ?m 9 ''u1'' 1 None (Some ''two litres'')))
       = [\<lparr>task_id = 1, user_id = ''u1'', title = ''milk'', description = Some ''two litres'',
           completed = False, created_at = 1, updated_at = 9\<rparr>]"
    by code_simp
  from update_task_frame [OF h]
  have "list_all2 (\<lambda>old new. user_id new = user_id old \<and> title new = title old
                   \<and> completed new = completed old \<and> created_at new = created_at old)
        (tasks ?m) (tasks (fst (update_task ?m 9 ''u1'' 1 None (Some ''two litres''))))"
    by (elim conjE list_all2_mono) simp
  with h v show ?thesis by blast
qed

subsection \<open>Ids over sequences of calls\<close>

lemma task_ids_add:
  "task_ids (fst (add_task m t1 t2 uid ttl desc)) =
     task_ids m @ (if success (snd (add_task m t1 t2 uid ttl desc)) then [next_id m] else [])"
  by (simp add: add_task_def task_ids_def Let_def failed_results split: option.splits)

lemma task_ids_list: "fst (list_tasks m uid status) = m"
  by (simp add: list_tasks_def Let_def split: option.splits)

lemma task_ids_complete: "task_ids (fst (complete_task m now uid tid)) = task_ids m"
  by (auto simp: complete_task_cases task_ids_def comp_def split: sum.splits option.splits
      intro!: map_cong)

lemma task_ids_update: "task_ids (fst (update_task m now uid tid ttl desc)) = task_ids m"
  by (auto simp: update_task_cases task_ids_def comp_def split: sum.splits option.splits
      intro!: map_cong)

lemma task_ids_delete:
  "task_ids (fst (delete_task m uid tid)) =
     (if success (snd (delete_task m uid tid)) then filter (\<lambda>i. i \<noteq> tid) (task_ids m)
      else task_ids m)"
  by (auto simp: delete_task_cases task_ids_def failed_results filter_map comp_def
      split: sum.splits option.splits)

lemma engine_unchanged:
  "engine (fst (add_task m t1 t2 uid x d)) = engine m"
  "engine (fst (list_tasks m uid status)) = engine m"
  "engine (fst (complete_task m now uid tid)) = engine m"
  "engine (fst (update_task m now uid tid ttl desc)) = engine m"
  "engine (fst (delete_task m uid tid)) = engine m"
  by (auto simp: add_task_def list_tasks_def complete_task_cases update_task_cases
        delete_task_cases Let_def split: sum.splits option.splits)

lemma last_serial_unchanged:
  "last_serial (fst (list_tasks m uid status)) = last_serial m"
  "last_serial (fst (complete_task m now uid tid)) = last_serial m"
  "last_serial (fst (update_task m now uid tid ttl desc)) = last_serial m"
  "last_serial (fst (delete_task m uid tid)) = last_serial m"
  by (auto simp: list_tasks_def complete_task_cases update_task_cases
        delete_task_cases Let_def split: sum.splits option.splits)

lemma last_serial_add:
  "last_serial (fst (add_task m t1 t2 uid ttl desc)) =
     (if success (snd (add_task m t1 t2 uid ttl desc))
      then (case engine m of SQLite \<Rightarrow> last_serial m | PostgreSQL \<Rightarrow> next_id m)
      else last_serial m)"
  by (simp add: add_task_def Let_def failed_results split: option.splits)

lemma engine_perform: "engine (fst (perform m c)) = engine m"
  by (cases c) (simp_all add: engine_unchanged)


lemma next_id_above:
  assumes "ids_ok m" and "i \<in> set (task_ids m)"
  shows "i < next_id m"
proof (cases "engine m")
  case SQLite
  from assms(2) have ne: "tasks m \<noteq> []" by (auto simp: task_ids_def)
  have "i \<le> Max (set (map task_id (tasks m)))"
    using assms(2) by (intro Max_ge) (simp_all add: task_ids_def)
  with SQLite ne show ?thesis by (simp add: next_id_def)
next
  case PostgreSQL
  with assms show ?thesis by (auto simp: next_id_def ids_ok_def)
qed

lemma ids_ok_init: "ids_ok (TaskManager_init e)"
  by (simp add: ids_ok_def TaskManager_init_def task_ids_def)

lemma ids_ok_perform:
  assumes "ids_ok m"
  shows "ids_ok (fst (perform m c))"
proof (cases c)
  case (Add t1 t2 uid ttl desc)
  have fresh: "next_id m \<notin> set (task_ids m)"
    using next_id_above [OF assms] by force
  have le: "i \<le> next_id m" if "i \<in> set (task_ids m)" for i
    using next_id_above [OF assms that] by simp
  show ?thesis
    using assms fresh le
    by (auto simp: Add ids_ok_def task_ids_add engine_unchanged last_serial_add)
next
  case (ListTasks uid status)
  with assms show ?thesis by (simp add: task_ids_list)
next
  case (Complete now uid tid)
  with assms show ?thesis
    by (simp add: ids_ok_def task_ids_complete engine_unchanged last_serial_unchanged)
next
  case (Update now uid tid ttl desc)
  with assms show ?thesis
    by (simp add: ids_ok_def task_ids_update engine_unchanged last_serial_unchanged)
next
  case (Delete uid tid)
  with assms show ?thesis
    by (auto simp: ids_ok_def task_ids_delete engine_unchanged last_serial_unchanged)
qed

lemma ids_ok_perform_all: "ids_ok m \<Longrightarrow> ids_ok (perform_all m cs)"
  by (induction cs arbitrary: m) (simp_all add: ids_ok_perform)

lemma engine_perform_all: "engine (perform_all m cs) = engine m"
  by (induction cs arbitrary: m) (simp_all add: engine_perform)

lemma assigned_ids_step:
  "assigned_ids m (c # cs) =
     (case c of
        Add t1 t2 uid ttl desc \<Rightarrow>
          (if success (snd (add_task m t1 t2 uid ttl desc)) then [next_id m] else [])
      | _ \<Rightarrow> []) @ assigned_ids (fst (perform m c)) cs"
  by (cases c) simp_all

lemma postgres_assigned:
  assumes "engine m = PostgreSQL"
  shows "sorted_wrt (<) (assigned_ids m cs) \<and> (\<forall>i \<in> set (assigned_ids m cs). last_serial m < i)"
  using assms
proof (induction cs arbitrary: m)
  case Nil
  then show ?case by simp
next
  case (Cons c cs)
  let ?m' = "fst (perform m c)"
  have e: "engine ?m' = PostgreSQL" using Cons.prems by (simp add: engine_perform)
  note ih = Cons.IH [OF e]
  show ?case
  proof (cases "\<exists>t1 t2 uid ttl desc. c = Add t1 t2 uid ttl desc")
    case True
    then obtain t1 t2 uid ttl desc where c: "c = Add t1 t2 uid ttl desc" by blast
    have n: "next_id m = last_serial m + 1"
      using Cons.prems by (simp add: next_id_def)
    show ?thesis
    proof (cases "success (snd (add_task m t1 t2 uid ttl desc))")
      case True
      then have s: "last_serial ?m' = next_id m"
        using Cons.prems by (simp add: c last_serial_add)
      from ih s n True show ?thesis
        by (simp only: assigned_ids_step) (auto simp: c)
    next
      case False
      then have s: "last_serial ?m' = last_serial m"
        by (simp add: c last_serial_add)
      from ih s False show ?thesis
        by (simp only: assigned_ids_step) (auto simp: c)
    qed
  next
    case False
    then have s: "last_serial ?m' = last_serial m"
      by (cases c) (simp_all add: last_serial_unchanged task_ids_list)
    from False have a: "assigned_ids m (c # cs) = assigned_ids ?m' cs"
      by (cases c) simp_all
    from ih s a show ?thesis by simp
  qed
qed

lemma listed_ids_list_tasks:
  "listed_ids (snd (list_tasks m uid status)) =
     (case str_error (engine m) uid of
        Some e \<Rightarrow> []
      | None \<Rightarrow>
          map (\<lambda>t. JInt (task_id t))
            (filter (\<lambda>t. user_id t = uid \<and>
                           (if status = ''pending'' then \<not> completed t
                            else if status = ''completed'' then completed t
                            else True)) (tasks m)))"
  by (simp add: list_tasks_def listed_ids_def dict_get_def task_dict_def Let_def comp_def
      failure_def split: option.splits)

lemma absent_not_listed:
  "tid \<notin> set (task_ids m) \<Longrightarrow> JInt tid \<notin> set (listed_ids (snd (list_tasks m uid status)))"
  by (auto simp: listed_ids_list_tasks task_ids_def split: option.splits)

lemma absent_perform:
  assumes "tid \<notin> set (task_ids m)" and "tid \<notin> set (assigned_ids m [c])"
  shows "tid \<notin> set (task_ids (fst (perform m c)))"
  using assms
  by (cases c)
     (auto simp: task_ids_add task_ids_list task_ids_complete task_ids_update task_ids_delete)

lemma absent_perform_all:
  "tid \<notin> set (task_ids m) \<Longrightarrow> tid \<notin> set (assigned_ids m cs)
     \<Longrightarrow> tid \<notin> set (task_ids (perform_all m cs))"
proof (induction cs arbitrary: m)
  case Nil
  then show ?case by simp
next
  case (Cons c cs)
  from Cons.prems(2) have 1: "tid \<notin> set (assigned_ids m [c])"
    and 2: "tid \<notin> set (assigned_ids (fst (perform m c)) cs)"
    by (simp_all add: assigned_ids_step [of m c cs] assigned_ids_step [of m c "[]"])
  from absent_perform [OF Cons.prems(1) 1] have "tid \<notin> set (task_ids (fst (perform m c)))" .
  from Cons.IH [OF this 2] show ?case by simp
qed

lemma delete_task_removes:
  assumes "success (snd (delete_task m uid tid))"
  shows "tid \<notin> set (task_ids (fst (delete_task m uid tid)))" and "tid \<in> set (task_ids m)"
    and "int_error (engine m) tid = None"
proof -
  show "tid \<notin> set (task_ids (fst (delete_task m uid tid)))"
    using assms by (simp add: task_ids_delete)
  from assms obtain t where t: "session_get m tid = Inr (Some t)"
    by (cases "session_get m tid")
       (auto simp: delete_task_cases failed_results split: option.splits)
  from session_get_Some [OF t] show "tid \<in> set (task_ids m)"
    by (auto simp: task_ids_def)
  from session_get_Some [OF t] show "int_error (engine m) tid = None" by simp
qed

text \<open>
  Claim C7, as amended. After a successful \<^verbatim>\<open>delete_task\<close> and any further calls, no list
  of the owner's tasks holds the id and \<^verbatim>\<open>complete_task\<close>, \<^verbatim>\<open>update_task\<close> and
  \<^verbatim>\<open>delete_task\<close> on it return the not-found result, as long as no later \<^verbatim>\<open>add_task\<close> was
  given that id again; on a PostgreSQL store, started empty, none ever is.
\<close>

theorem delete_task_gone:
  assumes "success (snd (delete_task m uid tid))"
    and "(\<exists>cs0. m = perform_all (TaskManager_init PostgreSQL) cs0)
         \<or> tid \<notin> set (assigned_ids (fst (delete_task m uid tid)) cs)"
  shows "JInt tid \<notin> set (listed_ids
             (snd (list_tasks (perform_all (fst (delete_task m uid tid)) cs) uid ''all'')))
     \<and> complete_task (perform_all (fst (delete_task m uid tid)) cs) now uid tid
         = (perform_all (fst (delete_task m uid tid)) cs, not_found tid)
     \<and> update_task (perform_all (fst (delete_task m uid tid)) cs) now uid tid ttl desc
         = (perform_all (fst (delete_task m uid tid)) cs, not_found tid)
     \<and> delete_task (perform_all (fst (delete_task m uid tid)) cs) uid tid
         = (perform_all (fst (delete_task m uid tid)) cs, not_found tid)"
proof -
  let ?m1 = "fst (delete_task m uid tid)"
  let ?m' = "perform_all ?m1 cs"
  have not_again: "tid \<notin> set (assigned_ids ?m1 cs)"
    using assms(2)
  proof
    assume "\<exists>cs0. m = perform_all (TaskManager_init PostgreSQL) cs0"
    then obtain cs0 where m: "m = perform_all (TaskManager_init PostgreSQL) cs0" ..
    have ok: "ids_ok m" unfolding m by (intro ids_ok_perform_all ids_ok_init)
    have pg: "engine m = PostgreSQL"
      unfolding m by (simp add: engine_perform_all TaskManager_init_def)
    from ok pg delete_task_removes(2) [OF assms(1)] have "tid \<le> last_serial m"
      by (simp add: ids_ok_def)
    moreover have "engine ?m1 = PostgreSQL" "last_serial ?m1 = last_serial m"
      using pg by (simp_all add: engine_unchanged last_serial_unchanged)
    ultimately show ?thesis using postgres_assigned [of ?m1 cs] by fastforce
  next
    assume "tid \<notin> set (assigned_ids ?m1 cs)"
    then show ?thesis .
  qed
  have absent: "tid \<notin> set (task_ids ?m')"
    using delete_task_removes(1) [OF assms(1)] not_again by (rule absent_perform_all)
  have "engine ?m' = engine m"
    by (simp add: engine_perform_all engine_unchanged)
  with delete_task_removes(3) [OF assms(1)] have "int_error (engine ?m') tid = None" by simp
  with absent have none: "session_get ?m' tid = Inr None" by (simp add: session_get_None)
  from absent have "JInt tid \<notin> set (listed_ids (snd (list_tasks ?m' uid ''all'')))"
    by (rule absent_not_listed)
  moreover from none have "complete_task ?m' now uid tid = (?m', not_found tid)"
    "update_task ?m' now uid tid ttl desc = (?m', not_found tid)"
    "delete_task ?m' uid tid = (?m', not_found tid)"
    by (simp_all add: complete_task_cases update_task_cases delete_task_cases)
  ultimately show ?thesis by simp
qed

theorem delete_task_gone_witness:
  "success (snd (delete_task (perform_all (TaskManager_init PostgreSQL) [Add 1 1 ''u1'' ''milk'' None])
                  ''u1'' 1))
   \<and> JInt 1 \<notin> set (listed_ids (snd (list_tasks
         (perform_all
            (fst (delete_task (perform_all (TaskManager_init PostgreSQL) [Add 1 1 ''u1'' ''milk'' None])
                    ''u1'' 1))
            [Add 2 2 ''u1'' ''bread'' None])
         ''u1'' ''all'')))
   \<and> success (snd (delete_task
                     (perform_all (TaskManager_init SQLite)
                        [Add 1 1 ''u1'' ''milk'' None, Add 2 2 ''u2'' ''eggs'' None])
                     ''u1'' 1))
   \<and> 1 \<notin> set (assigned_ids
                 (fst (delete_task
                         (perform_all (TaskManager_init SQLite)
                            [Add 1 1 ''u1'' ''milk'' None, Add 2 2 ''u2'' ''eggs'' None])
                         ''u1'' 1))
                 [Add 3 3 ''u1'' ''bread'' None])
   \<and> snd (complete_task
            (perform_all
               (fst (delete_task
                       (perform_all (TaskManager_init SQLite)
                          [Add 1 1 ''u1'' ''milk'' None, Add 2 2 ''u2'' ''eggs'' None])
                       ''u1'' 1))
               [Add 3 3 ''u1'' ''bread'' None])
            4 ''u1'' 1) = not_found 1"
proof -
  let ?pg = "perform_all (TaskManager_init PostgreSQL) [Add 1 1 ''u1'' ''milk'' None]"
  let ?sq = "perform_all (TaskManager_init SQLite)
               [Add 1 1 ''u1'' ''milk'' None, Add 2 2 ''u2'' ''eggs'' None]"
  have p1: "success (snd (delete_task ?pg ''u1'' 1))" by code_simp
  have p2: "(\<exists>cs0. ?pg = perform_all (TaskManager_init PostgreSQL) cs0)
         \<or> 1 \<notin> set (assigned_ids (fst (delete_task ?pg ''u1'' 1)) [Add 2 2 ''u1'' ''bread'' None])"
    by blast
  have s1: "success (snd (delete_task ?sq ''u1'' 1))" by code_simp
  have s2: "1 \<notin> set (assigned_ids (fst (delete_task ?sq ''u1'' 1)) [Add 3 3 ''u1'' ''bread'' None])"
    by code_simp
  from s2 have s3: "(\<exists>cs0. ?sq = perform_all (TaskManager_init PostgreSQL) cs0)
         \<or> 1 \<notin> set (assigned_ids (fst (delete_task ?sq ''u1'' 1)) [Add 3 3 ''u1'' ''bread'' None])"
    ..
  from delete_task_gone [OF p1 p2, of 0 None None]
  have c1: "JInt 1 \<notin> set (listed_ids (snd (list_tasks
         (perform_all (fst (delete_task ?pg ''u1'' 1)) [Add 2 2 ''u1'' ''bread'' None])
         ''u1'' ''all'')))"
    by (rule conjunct1)
  from delete_task_gone [OF s1 s3, of 4 None None]
  have c2: "snd (complete_task
            (perform_all (fst (delete_task ?sq ''u1'' 1)) [Add 3 3 ''u1'' ''bread'' None])
            4 ''u1'' 1) = not_found 1"
    by simp
  from p1 c1 s1 s2 c2 show ?thesis by blast
qed

text \<open>
  What the claim C7 says fails on the SQLite store: the only task, with id 1, is deleted,
  the next task added gets the id 1 again, the list holds that id and completing it
  succeeds.
\<close>

theorem delete_task_gone_counterexample:
  "success (snd (delete_task (fst (add_task (TaskManager_init SQLite) 1 1 ''u1'' ''milk'' None))
                  ''u1'' 1))
   \<and> JInt 1 \<in> set (listed_ids (snd (list_tasks
         (perform_all
            (fst (delete_task (fst (add_task (TaskManager_init SQLite) 1 1 ''u1'' ''milk'' None))
                    ''u1'' 1))
            [Add 2 2 ''u1'' ''bread'' None])
         ''u1'' ''all'')))
   \<and> success (snd (complete_task
         (perform_all
            (fst (delete_task (fst (add_task (TaskManager_init SQLite) 1 1 ''u1'' ''milk'' None))
                    ''u1'' 1))
            [Add 2 2 ''u1'' ''bread'' None])
         3 ''u1'' 1))"
  by code_simp

text \<open>
  Claim C10, as amended. On either engine, after any sequence of calls on a store
  started empty, no two tasks in the table share an id, whoever owns them, and the id
  the next \<^verbatim>\<open>add_task\<close> will assign is larger than every id in the table. On PostgreSQL the
  ids assigned over a sequence of calls are strictly increasing, so none is assigned
  twice, deletions or not.
\<close>

theorem task_ids_unique:
  "distinct (task_ids (perform_all (TaskManager_init e) cs))
   \<and> (\<forall>i \<in> set (task_ids (perform_all (TaskManager_init e) cs)).
         i < next_id (perform_all (TaskManager_init e) cs))
   \<and> sorted_wrt (<) (assigned_ids (TaskManager_init PostgreSQL) cs)"
proof -
  have ok: "ids_ok (perform_all (TaskManager_init e) cs)"
    by (intro ids_ok_perform_all ids_ok_init)
  then have "distinct (task_ids (perform_all (TaskManager_init e) cs))"
    by (simp add: ids_ok_def)
  moreover have "\<forall>i \<in> set (task_ids (perform_all (TaskManager_init e) cs)).
         i < next_id (perform_all (TaskManager_init e) cs)"
    using next_id_above [OF ok] by blast
  moreover have "sorted_wrt (<) (assigned_ids (TaskManager_init PostgreSQL) cs)"
    using postgres_assigned [of "TaskManager_init PostgreSQL" cs]
    by (simp add: TaskManager_init_def)
  ultimately show ?thesis by blast
qed

theorem task_ids_unique_witness:
  "task_ids (perform_all (TaskManager_init SQLite)
               [Add 1 1 ''u1'' ''milk'' None, Add 2 2 ''u2'' ''eggs'' None, Delete ''u1'' 1]) = [2]
   \<and> next_id (perform_all (TaskManager_init SQLite)
               [Add 1 1 ''u1'' ''milk'' None, Add 2 2 ''u2'' ''eggs'' None, Delete ''u1'' 1]) = 3
   \<and> distinct (task_ids (perform_all (TaskManager_init SQLite)
               [Add 1 1 ''u1'' ''milk'' None, Add 2 2 ''u2'' ''eggs'' None, Delete ''u1'' 1]))
   \<and> assigned_ids (TaskManager_init PostgreSQL)
        [Add 1 1 ''u1'' ''milk'' None, Delete ''u1'' 1, Add 2 2 ''u2'' ''bread'' None] = [1, 2]
   \<and> sorted_wrt (<) (assigned_ids (TaskManager_init PostgreSQL)
        [Add 1 1 ''u1'' ''milk'' None, Delete ''u1'' 1, Add 2 2 ''u2'' ''bread'' None])"
proof -
  have v1: "task_ids (perform_all (TaskManager_init SQLite)
               [Add 1 1 ''u1'' ''milk'' None, Add 2 2 ''u2'' ''eggs'' None, Delete ''u1'' 1]) = [2]"
    by code_simp
  have v2: "next_id (perform_all (TaskManager_init SQLite)
               [Add 1 1 ''u1'' ''milk'' None, Add 2 2 ''u2'' ''eggs'' None, Delete ''u1'' 1]) = 3"
    by code_simp
  have v3: "assigned_ids (TaskManager_init PostgreSQL)
        [Add 1 1 ''u1'' ''milk'' None, Delete ''u1'' 1, Add 2 2 ''u2'' ''bread'' None] = [1, 2]"
    by code_simp
  from task_ids_unique [of SQLite "[Add 1 1 ''u1'' ''milk'' None, Add 2 2 ''u2'' ''eggs'' None, Delete ''u1'' 1]"]
  have d: "distinct (task_ids (perform_all (TaskManager_init SQLite)
               [Add 1 1 ''u1'' ''milk'' None, Add 2 2 ''u2'' ''eggs'' None, Delete ''u1'' 1]))"
    by (rule conjunct1)
  from task_ids_unique [of PostgreSQL "[Add 1 1 ''u1'' ''milk'' None, Delete ''u1'' 1, Add 2 2 ''u2'' ''bread'' None]"]
  have s: "sorted_wrt (<) (assigned_ids (TaskManager_init PostgreSQL)
        [Add 1 1 ''u1'' ''milk'' None, Delete ''u1'' 1, Add 2 2 ''u2'' ''bread'' None])"
    by blast
  from v1 v2 v3 d s show ?thesis by blast
qed

text \<open>
  What the claim C10 says fails on the SQLite store: once the task with the largest id
  is deleted, the next task added is given that id again.
\<close>

theorem task_ids_unique_counterexample:
  "assigned_ids (TaskManager_init SQLite)
     [Add 1 1 ''u1'' ''milk'' None, Delete ''u1'' 1, Add 2 2 ''u2'' ''bread'' None] = [1, 1]"
  by code_simp

end
